theory Spec2Isabelle
  imports Main "HOL-Library.Sublist" "HOL-Library.Char_ord" "HOL-Library.List_Lexorder"
    "HOL-Library.AList"
begin

section \<open>JSON values and their serialisation\<close>

text \<open>
  Tool arguments are whatever \<^verbatim>\<open>json.loads\<close> produced. A Python dict keeps its insertion
  order, so an object is an association list (with distinct keys, see \<open>wf_json\<close>).
  Strings are lists of 8-bit characters (code points below 256); floating-point numbers
  are not part of the model.
\<close>

datatype json =
    JNull
  | JBool bool
  | JInt int
  | JStr string
  | JArr "json list"
  | JObj "(string \<times> json) list"

fun str_nat :: "nat \<Rightarrow> string" where
  "str_nat n =
     (if n < 10 then [char_of (48 + n)] else str_nat (n div 10) @ [char_of (48 + n mod 10)])"

definition str_int :: "int \<Rightarrow> string" where
  "str_int i = (if i < 0 then CHR ''-'' # str_nat (nat (- i)) else str_nat (nat i))"

definition hex_digit :: "nat \<Rightarrow> char" where
  "hex_digit d = (if d < 10 then char_of (48 + d) else char_of (87 + d))"

text \<open>
  \<^verbatim>\<open>json.dumps\<close> runs with \<^verbatim>\<open>ensure_ascii=True\<close>: the quote, the backslash and every
  character outside \<^verbatim>\<open>' '..'~'\<close> are escaped.
\<close>

definition escape_char :: "char \<Rightarrow> string" where
  "escape_char c =
     (if c = CHR 0x22 then [CHR 0x5C, CHR 0x22]
      else if c = CHR 0x5C then [CHR 0x5C, CHR 0x5C]
      else if c = CHR 0x0A then [CHR 0x5C, CHR ''n'']
      else if c = CHR 0x0D then [CHR 0x5C, CHR ''r'']
      else if c = CHR 0x09 then [CHR 0x5C, CHR ''t'']
      else if c = CHR 0x08 then [CHR 0x5C, CHR ''b'']
      else if c = CHR 0x0C then [CHR 0x5C, CHR ''f'']
      else if (of_char c :: nat) < 32 \<or> 126 < (of_char c :: nat)
        then [CHR 0x5C, CHR ''u'', CHR ''0'', CHR ''0'',
              hex_digit ((of_char c :: nat) div 16), hex_digit ((of_char c :: nat) mod 16)]
      else [c])"

definition encode_str :: "string \<Rightarrow> string" where
  "encode_str s = CHR 0x22 # concat (map escape_char s) @ [CHR 0x22]"

fun join :: "string \<Rightarrow> string list \<Rightarrow> string" where
  "join sep [] = []"
| "join sep [x] = x"
| "join sep (x # y # ys) = x @ sep @ join sep (y # ys)"

text \<open>\<^verbatim>\<open>json.dumps(v, sort_keys=True)\<close>: items sorted by key, separators \<^verbatim>\<open>", "\<close> and \<^verbatim>\<open>": "\<close>.\<close>

function dumps_sorted :: "json \<Rightarrow> string" where
  "dumps_sorted JNull = ''null''"
| "dumps_sorted (JBool b) = (if b then ''true'' else ''false'')"
| "dumps_sorted (JInt i) = str_int i"
| "dumps_sorted (JStr s) = encode_str s"
| "dumps_sorted (JArr xs) = ''['' @ join '', '' (map dumps_sorted xs) @ '']''"
| "dumps_sorted (JObj kvs) =
     ''{'' @ join '', ''
        (map (\<lambda>(k, v). encode_str k @ '': '' @ dumps_sorted v) (sort_key fst kvs)) @ ''}''"
  by pat_completeness auto
termination
proof (relation "measure size")
  show "wf (measure size)" by simp
next
  fix xs :: "json list" and x
  assume "x \<in> set xs"
  then have "size x \<le> size_list size xs" by (rule size_list_estimation') simp
  then show "(x, JArr xs) \<in> measure size" by simp
next
  fix kvs :: "(string \<times> json) list" and p k v
  assume "p \<in> set (sort_key fst kvs)" and p: "(k, v) = p"
  then have "(k, v) \<in> set kvs" by simp
  then have "size_prod (\<lambda>_. 0) size (k, v) \<le> size_list (size_prod (\<lambda>_. 0) size) kvs"
    by (rule size_list_estimation') simp
  then show "(v, JObj kvs) \<in> measure size" by simp
qed

text \<open>\<^verbatim>\<open>json.dumps(v, indent=2)\<close>: insertion order, one item per line.\<close>

definition newline_indent :: "nat \<Rightarrow> string" where
  "newline_indent level = CHR 0x0A # replicate (2 * level) CHR '' ''"

function dumps_indent :: "nat \<Rightarrow> json \<Rightarrow> string" where
  "dumps_indent level JNull = ''null''"
| "dumps_indent level (JBool b) = (if b then ''true'' else ''false'')"
| "dumps_indent level (JInt i) = str_int i"
| "dumps_indent level (JStr s) = encode_str s"
| "dumps_indent level (JArr xs) =
     (if xs = [] then ''[]''
      else ''['' @ newline_indent (Suc level)
        @ join ('','' @ newline_indent (Suc level)) (map (dumps_indent (Suc level)) xs)
        @ newline_indent level @ '']'')"
| "dumps_indent level (JObj kvs) =
     (if kvs = [] then ''{}''
      else ''{'' @ newline_indent (Suc level)
        @ join ('','' @ newline_indent (Suc level))
            (map (\<lambda>(k, v). encode_str k @ '': '' @ dumps_indent (Suc level) v) kvs)
        @ newline_indent level @ ''}'')"
  by pat_completeness auto
termination
proof (relation "measure (\<lambda>(level, v). size v)")
  show "wf (measure (\<lambda>(level :: nat, v :: json). size v))" by simp
next
  fix level :: nat and xs :: "json list" and x
  assume "x \<in> set xs"
  then have "size x \<le> size_list size xs" by (rule size_list_estimation') simp
  then show "((Suc level, x), (level, JArr xs)) \<in> measure (\<lambda>(level, v). size v)" by simp
next
  fix level :: nat and kvs :: "(string \<times> json) list" and p k v
  assume "p \<in> set kvs" and p: "(k, v) = p"
  then have "(k, v) \<in> set kvs" by simp
  then have "size_prod (\<lambda>_. 0) size (k, v) \<le> size_list (size_prod (\<lambda>_. 0) size) kvs"
    by (rule size_list_estimation') simp
  then show "((Suc level, v), (level, JObj kvs)) \<in> measure (\<lambda>(level, v). size v)" by simp
qed

section \<open>The policy store and its file\<close>

text \<open>
  \<^verbatim>\<open>self.permissions\<close> is a dict from policy key to verdict string. Assignment to a key
  replaces the value in place or appends a new item, which is \<open>AList.update\<close>.
\<close>

type_synonym permissions = "(string \<times> string) list"

definition default_permissions :: permissions where
  "default_permissions =
     [(''read_file'', ''allow''), (''write_file'', ''ask''),
      (''delete_file'', ''deny''), (''execute_command'', ''deny'')]"















section \<open>The permission client\<close>

text \<open>
  The state of an \<^verbatim>\<open>MCPPermissionClient\<close>: the policy dict, the text of the permissions
  file (\<open>None\<close> while the file does not exist) and one trace of its two observable
  effects, in the order they happen: a line appended to the audit log and a call of the
  tool executor \<^verbatim>\<open>session.call_tool\<close>. The timestamp of an audit line is
  the wall clock and is left out of the record; the connection is taken as established.
\<close>

record audit_entry =
  operation :: string
  decision :: string
  reason :: string

datatype event = Audit audit_entry | ToolCall string json

datatype py_exception = PyException string

fun str_exception :: "py_exception \<Rightarrow> string" where
  "str_exception (PyException m) = m"

text \<open>An item of \<^verbatim>\<open>result.content\<close>: it has a \<^verbatim>\<open>text\<close> attribute or only its \<^verbatim>\<open>str()\<close>.\<close>

datatype content = TextContent string | OtherContent string

text \<open>
  The tool executor is an external collaborator: it returns a content list or raises.
  It is given the trace so far, so that its answer may depend on everything done before.
\<close>

type_synonym tool_executor = "event list \<Rightarrow> string \<Rightarrow> json \<Rightarrow> py_exception + content list"

record client =
  permissions :: permissions
  permissions_file :: "string option"
  trace :: "event list"

definition audit_log :: "'a client_scheme \<Rightarrow> audit_entry list" where
  "audit_log s = concat (map (\<lambda>e. case e of Audit a \<Rightarrow> [a] | ToolCall _ _ \<Rightarrow> []) (trace s))"

definition tool_calls :: "'a client_scheme \<Rightarrow> (string \<times> json) list" where
  "tool_calls s = concat (map (\<lambda>e. case e of Audit _ \<Rightarrow> [] | ToolCall t a \<Rightarrow> [(t, a)]) (trace s))"



definition arg_key :: "string \<Rightarrow> json \<Rightarrow> string" where
  "arg_key tool_name arguments = tool_name @ '':'' @ dumps_sorted arguments"

definition dict_get :: "('k \<times> 'v) list \<Rightarrow> 'k \<Rightarrow> 'v \<Rightarrow> 'v" where
  "dict_get d k dflt = (case map_of d k of None \<Rightarrow> dflt | Some v \<Rightarrow> v)"

text \<open>
  \<^verbatim>\<open>check_permission\<close>: the membership test guards the subscript, so the subscript
  cannot raise \<^verbatim>\<open>KeyError\<close> and its default below is never taken.
\<close>

definition check_permission :: "permissions \<Rightarrow> string \<Rightarrow> json \<Rightarrow> string" where
  "check_permission perms tool_name arguments =
     (if arg_key tool_name arguments \<in> fst ` set perms
      then dict_get perms (arg_key tool_name arguments) []
      else dict_get perms tool_name ''ask'')"

definition log_audit :: "'a client_scheme \<Rightarrow> string \<Rightarrow> string \<Rightarrow> string \<Rightarrow> 'a client_scheme" where
  "log_audit s op dec rsn =
     s\<lparr>trace := trace s @ [Audit \<lparr>operation = op, decision = dec, reason = rsn\<rparr>]\<rparr>"

definition approval_msg :: "string \<Rightarrow> json \<Rightarrow> string" where
  "approval_msg tool_name arguments =
     ''Permission required for tool: '' @ tool_name @ [CHR 0x0A]
     @ ''Arguments: '' @ dumps_indent 0 arguments @ [CHR 0x0A, CHR 0x0A]
     @ ''This tool requires approval before execution.'' @ [CHR 0x0A]
     @ ''Please approve this operation in the GUI to proceed.''"

text \<open>
  \<^verbatim>\<open>call_tool_with_permission\<close>. \<^verbatim>\<open>None\<close> for the arguments is \<open>JNull\<close>. The result is
  \<open>Inl\<close> when \<^verbatim>\<open>session.call_tool\<close> raises: the exception leaves the method after the
  audit line has been written.
\<close>

definition effective_arguments :: "json \<Rightarrow> json" where
  "effective_arguments arguments = (if arguments = JNull then JObj [] else arguments)"

definition call_tool_with_permission ::
  "tool_executor \<Rightarrow> 'a client_scheme \<Rightarrow> string \<Rightarrow> json \<Rightarrow> bool
     \<Rightarrow> (py_exception + content list) \<times> 'a client_scheme" where
  "call_tool_with_permission exec s tool_name arguments0 approved =
     (let arguments = effective_arguments arguments0;
          permission = check_permission (permissions s) tool_name arguments
      in if permission = ''deny'' then
           (Inr [TextContent (''Permission denied for tool: '' @ tool_name)],
            log_audit s (''TOOL: '' @ tool_name) ''DENIED'' ''Policy: deny'')
         else if permission = ''ask'' \<and> \<not> approved then
           (Inr [TextContent (approval_msg tool_name arguments)],
            log_audit s (''TOOL: '' @ tool_name) ''ASK'' ''Awaiting approval'')
         else
           (let s1 = log_audit s (''TOOL: '' @ tool_name) ''ALLOWED'' (''Policy: '' @ permission);
                s2 = s1\<lparr>trace := trace s1 @ [ToolCall tool_name arguments]\<rparr>
            in (exec (trace s1) tool_name arguments, s2)))"



section \<open>The host application\<close>

record tool_call =
  tc_id :: string
  tc_name :: string
  tc_arguments :: "json option"

datatype message =
    UserMessage string
  | AssistantMessage "string option"
  | AssistantToolCalls string "tool_call list"
  | ToolMessage string string

record host = client +
  pending_approval :: "(string \<times> json) option"
  conversation_history :: "message list"

text \<open>
  What the host reaches through its session and its language model. \<open>helper_tools\<close>
  stands for the four synthetic resource and prompt helpers of \<^verbatim>\<open>execute_tool\<close>, which
  format catalogue listings: they read no policy, write no audit line, call no tool and
  leave the pending approval alone. A tool call of the model carries the arguments
  \<^verbatim>\<open>json.loads\<close> decodes, \<open>None\<close> when it raises.
\<close>

record assistant_message =
  am_content :: "string option"
  am_tool_calls :: "tool_call list"

record environment =
  call_tool :: tool_executor
  helper_tools :: "string \<Rightarrow> json \<Rightarrow> py_exception + string"
  create_with_tools :: "message list \<Rightarrow> assistant_message option"
  create_plain :: "message list \<Rightarrow> string option option"

definition synthetic_tools :: "string list" where
  "synthetic_tools =
     [''mcp_list_resources'', ''mcp_read_resource'', ''mcp_list_prompts'', ''mcp_get_prompt'']"

definition execute_tool ::
  "environment \<Rightarrow> host \<Rightarrow> string \<Rightarrow> json \<Rightarrow> (py_exception + string) \<times> host" where
  "execute_tool env s tool_name arguments =
     (if tool_name \<in> set synthetic_tools then (helper_tools env tool_name arguments, s)
      else
        (case call_tool_with_permission (call_tool env) s tool_name arguments False of
           (Inl e, s') \<Rightarrow> (Inr (''Error executing tool: '' @ str_exception e), s')
         | (Inr result, s') \<Rightarrow>
             (case result of
                [] \<Rightarrow> (Inr ''[]'', s')
              | TextContent result_text # _ \<Rightarrow>
                  (Inr result_text,
                   if sublist ''Permission required for tool:'' result_text
                      \<and> sublist ''Please approve this operation'' result_text
                   then s'\<lparr>pending_approval := Some (tool_name, arguments)\<rparr>
                   else s')
              | OtherContent r # _ \<Rightarrow> (Inr r, s'))))"

text \<open>\<^verbatim>\<open>str.strip\<close> and \<^verbatim>\<open>str.lower\<close> on code points below 256.\<close>

definition is_space :: "char \<Rightarrow> bool" where
  "is_space c =
     (let n = (of_char c :: nat)
      in (9 \<le> n \<and> n \<le> 13) \<or> (28 \<le> n \<and> n \<le> 32) \<or> n = 133 \<or> n = 160)"

definition strip :: "string \<Rightarrow> string" where
  "strip s = rev (dropWhile is_space (rev (dropWhile is_space s)))"

definition lower_char :: "char \<Rightarrow> char" where
  "lower_char c =
     (let n = (of_char c :: nat)
      in if (65 \<le> n \<and> n \<le> 90) \<or> (192 \<le> n \<and> n \<le> 222 \<and> n \<noteq> 215)
         then char_of (n + 32) else c)"

definition lower :: "string \<Rightarrow> string" where
  "lower s = map lower_char s"

definition affirmative :: "string list" where
  "affirmative = [''yes'', ''approve'', ''ok'', ''confirm'', ''y'']"

definition negative :: "string list" where
  "negative = [''no'', ''deny'', ''cancel'', ''n'']"

definition add_exchange :: "host \<Rightarrow> string \<Rightarrow> string \<Rightarrow> host" where
  "add_exchange s user_message response_text =
     s\<lparr>conversation_history :=
         conversation_history s @ [UserMessage user_message, AssistantMessage (Some response_text)]\<rparr>"

text \<open>The loop of \<^verbatim>\<open>chat\<close> over the tool calls the language model asked for.\<close>

fun run_tool_calls ::
  "environment \<Rightarrow> host \<Rightarrow> tool_call list \<Rightarrow> (py_exception + unit) \<times> host" where
  "run_tool_calls env s [] = (Inr (), s)"
| "run_tool_calls env s (tc # tcs) =
     (case tc_arguments tc of
        None \<Rightarrow> (Inl (PyException ''JSONDecodeError''), s)
      | Some function_args \<Rightarrow>
          (case execute_tool env s (tc_name tc) function_args of
             (Inl e, s1) \<Rightarrow> (Inl e, s1)
           | (Inr tool_result, s1) \<Rightarrow>
               run_tool_calls env
                 (s1\<lparr>conversation_history :=
                       conversation_history s1 @ [ToolMessage (tc_id tc) tool_result]\<rparr>)
                 tcs))"

text \<open>The part of \<^verbatim>\<open>chat\<close> after the two approval branches: the exchange with the model.\<close>

definition chat_llm ::
  "environment \<Rightarrow> host \<Rightarrow> string \<Rightarrow> (py_exception + string option) \<times> host" where
  "chat_llm env s user_message =
     (let s1 = s\<lparr>conversation_history := conversation_history s @ [UserMessage user_message]\<rparr>
      in case create_with_tools env (conversation_history s1) of
           None \<Rightarrow> (Inr (Some ''Error: No response from LLM''), s1)
         | Some am \<Rightarrow>
             if am_tool_calls am \<noteq> [] then
               (let s2 = s1\<lparr>conversation_history := conversation_history s1
                            @ [AssistantToolCalls (case am_content am of None \<Rightarrow> [] | Some c \<Rightarrow> c)
                                 (am_tool_calls am)]\<rparr>
                in case run_tool_calls env s2 (am_tool_calls am) of
                     (Inl e, s3) \<Rightarrow> (Inl e, s3)
                   | (Inr _, s3) \<Rightarrow>
                       (case create_plain env (conversation_history s3) of
                          None \<Rightarrow> (Inr (Some ''Error: No response from LLM after tool execution''), s3)
                        | Some final_message \<Rightarrow>
                            (Inr final_message,
                             s3\<lparr>conversation_history :=
                                  conversation_history s3 @ [AssistantMessage final_message]\<rparr>)))
             else
               (Inr (am_content am),
                s1\<lparr>conversation_history :=
                     conversation_history s1 @ [AssistantMessage (am_content am)]\<rparr>))"

definition chat ::
  "environment \<Rightarrow> host \<Rightarrow> string \<Rightarrow> (py_exception + string option) \<times> host" where
  "chat env s user_message =
     (case pending_approval s of
        Some (tool_name, arguments) \<Rightarrow>
          if lower (strip user_message) \<in> set affirmative then
            (let s1 = s\<lparr>pending_approval := None\<rparr>
             in case call_tool_with_permission (call_tool env) s1 tool_name arguments True of
                  (Inr result, s2) \<Rightarrow>
                    (let response_text = ''Operation approved and executed.'' @ [CHR 0x0A, CHR 0x0A]
                           @ (case result of
                                [] \<Rightarrow> ''[]''
                              | TextContent t # _ \<Rightarrow> t
                              | OtherContent r # _ \<Rightarrow> r)
                     in (Inr (Some response_text), add_exchange s2 user_message response_text))
                | (Inl e, s2) \<Rightarrow>
                    (let error_msg = ''Error executing approved operation: '' @ str_exception e
                     in (Inr (Some error_msg), add_exchange s2 user_message error_msg)))
          else if lower (strip user_message) \<in> set negative then
            (let response_text = ''Operation cancelled by user.''
             in (Inr (Some response_text),
                 add_exchange (s\<lparr>pending_approval := None\<rparr>) user_message response_text))
          else chat_llm env s user_message
      | None \<Rightarrow> chat_llm env s user_message)"

section \<open>The evaluation the specification describes\<close>

text \<open>
  The specification's \<open>evaluate\<close>, in its words: look the composite key (tool name, a
  colon, the canonical arguments) up in the PolicyStore and return it if present; otherwise
  look the bare tool name up and return it if present; otherwise return \<open>ask\<close>.
\<close>

definition evaluate_spec :: "(string \<rightharpoonup> string) \<Rightarrow> string \<Rightarrow> json \<Rightarrow> string" where
  "evaluate_spec store tool_name arguments =
     (case store (tool_name @ '':'' @ dumps_sorted arguments) of
        Some verdict \<Rightarrow> verdict
      | None \<Rightarrow> (case store tool_name of Some verdict \<Rightarrow> verdict | None \<Rightarrow> ''ask''))"

section \<open>Arguments that differ only in the order of their keys\<close>

text \<open>
  Two JSON values are the same up to construction order when they are equal, or arrays
  whose items are pairwise the same, or objects with the same keys, each key mapped to
  the same value in both. This is equality of Python dicts, at every depth.
\<close>

inductive same_value :: "json \<Rightarrow> json \<Rightarrow> bool" where
  same: "same_value v v"
| arrays: "list_all2 same_value xs ys \<Longrightarrow> same_value (JArr xs) (JArr ys)"
| objects:
    "distinct (map fst kvs) \<Longrightarrow> distinct (map fst kvs') \<Longrightarrow> fst ` set kvs = fst ` set kvs'
     \<Longrightarrow> (\<forall>k v v'. (k, v) \<in> set kvs \<and> (k, v') \<in> set kvs' \<longrightarrow> same_value v v')
     \<Longrightarrow> same_value (JObj kvs) (JObj kvs')"

section \<open>What a run adds to the trace\<close>

text \<open>
  The events a run appended, and the runs that take no approval into account: the policy
  is unchanged and every tool call made is one the stored policy lets through by itself
  (its verdict is neither \<open>deny\<close> nor \<open>ask\<close>).
\<close>

definition new_events :: "'a client_scheme \<Rightarrow> 'a client_scheme \<Rightarrow> event list" where
  "new_events s s' = drop (length (trace s)) (trace s')"

definition permitted_event :: "permissions \<Rightarrow> event \<Rightarrow> bool" where
  "permitted_event perms e =
     (case e of
        Audit _ \<Rightarrow> True
      | ToolCall t a \<Rightarrow> check_permission perms t a \<noteq> ''deny'' \<and> check_permission perms t a \<noteq> ''ask'')"

definition unapproved_step :: "host \<Rightarrow> host \<Rightarrow> bool" where
  "unapproved_step s s' \<longleftrightarrow>
     permissions s' = permissions s \<and> prefix (trace s) (trace s')
     \<and> list_all (permitted_event (permissions s)) (new_events s s')"

section \<open>Example states\<close>

definition example_executor :: tool_executor where
  "example_executor tr tool_name arguments = Inr [TextContent ''done'']"

definition failing_executor :: tool_executor where
  "failing_executor tr tool_name arguments = Inl (PyException ''connection closed'')"

definition example_client :: client where
  "example_client = \<lparr>permissions = default_permissions, permissions_file = None, trace = []\<rparr>"

definition example_env :: environment where
  "example_env =
     \<lparr>call_tool = example_executor,
      helper_tools = (\<lambda>tool_name arguments. Inr ''Available resources:''),
      create_with_tools = (\<lambda>history. None),
      create_plain = (\<lambda>history. None)\<rparr>"

definition failing_env :: environment where
  "failing_env = example_env\<lparr>call_tool := failing_executor\<rparr>"

definition example_host :: host where
  "example_host =
     \<lparr>permissions = default_permissions, permissions_file = None, trace = [],
      pending_approval = None, conversation_history = []\<rparr>"

definition example_arguments :: json where
  "example_arguments = JObj [(''filepath'', JStr ''notes.txt''), (''content'', JStr ''hello'')]"

text \<open>The host after the model asked for \<^verbatim>\<open>write_file\<close>, whose default policy is \<open>ask\<close>.\<close>

definition paused_host :: host where
  "paused_host = snd (execute_tool example_env example_host ''write_file'' example_arguments)"

text \<open>The same host once the policy of \<^verbatim>\<open>write_file\<close> has been set to \<open>deny\<close>.\<close>

definition denied_meanwhile :: host where
  "denied_meanwhile =
     paused_host\<lparr>permissions := AList.update ''write_file'' ''deny'' (permissions paused_host)\<rparr>"

text \<open>
  An executor whose output quotes the two phrases \<^verbatim>\<open>execute_tool\<close> looks for, and the host
  after the model asked it for \<^verbatim>\<open>read_file\<close>, whose default policy is \<open>allow\<close>.
\<close>

definition quoting_executor :: tool_executor where
  "quoting_executor tr tool_name arguments =
     Inr [TextContent (''Log: Permission required for tool: backup. ''
            @ ''Please approve this operation in the GUI.'')]"

definition quoting_env :: environment where
  "quoting_env = example_env\<lparr>call_tool := quoting_executor\<rparr>"

definition quoted_host :: host where
  "quoted_host =
     snd (execute_tool quoting_env example_host ''read_file'' (JObj [(''filepath'', JStr ''app.log'')]))"

text \<open>A language model that answers every message by asking for \<^verbatim>\<open>write_file\<close> again.\<close>

definition insistent_env :: environment where
  "insistent_env =
     \<lparr>call_tool = example_executor,
      helper_tools = (\<lambda>tool_name arguments. Inr ''Available resources:''),
      create_with_tools = (\<lambda>history. Some \<lparr>am_content = None, am_tool_calls =
         [\<lparr>tc_id = ''call_1'', tc_name = ''write_file'', tc_arguments = Some example_arguments\<rparr>]\<rparr>),
      create_plain = (\<lambda>history. Some (Some ''The file needs your approval.''))\<rparr>"


section \<open>Permission evaluation\<close>

text \<open>
  C4. For every tool name and arguments, \<open>check_permission\<close> is the lookup the
  specification describes: the composite key first, then the bare tool name, then
  \<open>ask\<close>; the first match wins.
\<close>

theorem check_permission_refines_spec:
  "check_permission perms tool_name arguments = evaluate_spec (map_of perms) tool_name arguments"
proof (cases "map_of perms (arg_key tool_name arguments)")
  case None
  then have "arg_key tool_name arguments \<notin> fst ` set perms"
    by (simp add: map_of_eq_None_iff)
  with None show ?thesis
    by (simp add: check_permission_def evaluate_spec_def dict_get_def arg_key_def)
next
  case (Some verdict)
  then have "arg_key tool_name arguments \<in> fst ` set perms"
    by (metis map_of_eq_None_iff option.distinct(1))
  with Some show ?thesis
    by (simp add: check_permission_def evaluate_spec_def dict_get_def arg_key_def)
qed

subsection \<open>Order of the keys\<close>

lemma distinct_keys_insort:
  "distinct (map fst (insort_key fst x xs)) \<longleftrightarrow> fst x \<notin> fst ` set xs \<and> distinct (map fst xs)"
  by (induction xs) (auto simp: set_insort_key)

lemma distinct_keys_sort: "distinct (map fst (sort_key fst xs)) \<longleftrightarrow> distinct (map fst xs)"
  by (induction xs) (auto simp: distinct_keys_insort)

lemma sorted_keys_agree:
  fixes kvs kvs' :: "(string \<times> 'v) list"
  assumes "distinct (map fst kvs)" and "distinct (map fst kvs')"
    and "fst ` set kvs = fst ` set kvs'"
  shows "map fst (sort_key fst kvs) = map fst (sort_key fst kvs')"
proof (rule sorted_distinct_set_unique)
  show "sorted (map fst (sort_key fst kvs))" by (rule sorted_sort_key)
  show "sorted (map fst (sort_key fst kvs'))" by (rule sorted_sort_key)
  show "distinct (map fst (sort_key fst kvs))" using assms(1) by (simp add: distinct_keys_sort)
  show "distinct (map fst (sort_key fst kvs'))" using assms(2) by (simp add: distinct_keys_sort)
  show "set (map fst (sort_key fst kvs)) = set (map fst (sort_key fst kvs'))"
    using assms(3) by simp
qed

lemma items_agree:
  fixes kvs kvs' :: "(string \<times> json) list"
  assumes "distinct (map fst kvs)" and "distinct (map fst kvs')"
    and "fst ` set kvs = fst ` set kvs'"
    and vals: "\<And>k v v'. (k, v) \<in> set kvs \<Longrightarrow> (k, v') \<in> set kvs' \<Longrightarrow> f v = f v'"
  shows "map (\<lambda>(k, v). g k @ f v) (sort_key fst kvs) = map (\<lambda>(k, v). g k @ f v) (sort_key fst kvs')"
proof (rule nth_equalityI)
  have keys: "map fst (sort_key fst kvs) = map fst (sort_key fst kvs')"
    using assms(1-3) by (rule sorted_keys_agree)
  then have len: "length (sort_key fst kvs) = length (sort_key fst kvs')"
    by (metis length_map)
  then show "length (map (\<lambda>(k, v). g k @ f v) (sort_key fst kvs)) =
      length (map (\<lambda>(k, v). g k @ f v) (sort_key fst kvs'))"
    by simp
  fix i
  assume "i < length (map (\<lambda>(k, v). g k @ f v) (sort_key fst kvs))"
  then have i: "i < length (sort_key fst kvs)" and i': "i < length (sort_key fst kvs')"
    using len by simp_all
  obtain k v where x: "sort_key fst kvs ! i = (k, v)" by (cases "sort_key fst kvs ! i")
  obtain k' v' where y: "sort_key fst kvs' ! i = (k', v')" by (cases "sort_key fst kvs' ! i")
  have "map fst (sort_key fst kvs) ! i = map fst (sort_key fst kvs') ! i"
    by (simp only: keys)
  with i i' x y have k: "k' = k" by simp
  have "(k, v) \<in> set (sort_key fst kvs)" using i x by (metis nth_mem)
  then have m: "(k, v) \<in> set kvs" by simp
  have "(k, v') \<in> set (sort_key fst kvs')" using i' y k by (metis nth_mem)
  then have m': "(k, v') \<in> set kvs'" by simp
  from m m' have "f v = f v'" by (rule vals)
  with i i' x y k
  show "map (\<lambda>(k, v). g k @ f v) (sort_key fst kvs) ! i =
      map (\<lambda>(k, v). g k @ f v) (sort_key fst kvs') ! i"
    by simp
qed

lemma same_value_dumps: "same_value a b \<Longrightarrow> dumps_sorted a = dumps_sorted b"
proof (induction rule: same_value.induct)
  case (same v)
  show ?case by simp
next
  case (arrays xs ys)
  then have "map dumps_sorted xs = map dumps_sorted ys"
    by (induction xs ys rule: list_all2_induct) simp_all
  then show ?case by simp
next
  case (objects kvs kvs')
  have "map (\<lambda>(k, v). (encode_str k @ '': '') @ dumps_sorted v) (sort_key fst kvs) =
      map (\<lambda>(k, v). (encode_str k @ '': '') @ dumps_sorted v) (sort_key fst kvs')"
    using objects(1-3)
  proof (rule items_agree)
    fix k v v'
    assume "(k, v) \<in> set kvs" and "(k, v') \<in> set kvs'"
    with objects(4) show "dumps_sorted v = dumps_sorted v'" by blast
  qed
  then show ?case by simp
qed

lemma same_items_same_value:
  assumes "distinct (map fst kvs)" and "distinct (map fst kvs')" and "map_of kvs = map_of kvs'"
  shows "same_value (JObj kvs) (JObj kvs')"
  using assms(1,2)
proof (rule same_value.objects)
  show "fst ` set kvs = fst ` set kvs'"
    using assms(3) by (metis dom_map_of_conv_image_fst)
  show "\<forall>k v v'. (k, v) \<in> set kvs \<and> (k, v') \<in> set kvs' \<longrightarrow> same_value v v'"
  proof (intro allI impI)
    fix k v v'
    assume a: "(k, v) \<in> set kvs \<and> (k, v') \<in> set kvs'"
    then have "map_of kvs k = Some v" and "map_of kvs' k = Some v'"
      using assms(1,2) by simp_all
    with assms(3) have "v = v'" by simp
    then show "same_value v v'" by (simp add: same_value.same)
  qed
qed

text \<open>
  C7. Arguments with the same keys mapped to the same values, whatever the order they were
  built in, have the same canonical serialisation, hence the same composite key and the
  same verdict under every policy.
\<close>

theorem canonical_key_order_independent:
  assumes "same_value arguments arguments'"
  shows "dumps_sorted arguments = dumps_sorted arguments'
       \<and> arg_key tool_name arguments = arg_key tool_name arguments'
       \<and> check_permission perms tool_name arguments = check_permission perms tool_name arguments'"
  using same_value_dumps [OF assms] by (simp add: arg_key_def check_permission_def)

theorem canonical_key_order_independent_witness:
  "same_value (JObj [(''a'', JInt 1), (''b'', JInt 2)]) (JObj [(''b'', JInt 2), (''a'', JInt 1)])
   \<and> dumps_sorted (JObj [(''b'', JInt 2), (''a'', JInt 1)]) =
       [CHR ''{'', CHR 0x22, CHR ''a'', CHR 0x22, CHR '':'', CHR '' '', CHR ''1'', CHR '','', CHR '' '',
        CHR 0x22, CHR ''b'', CHR 0x22, CHR '':'', CHR '' '', CHR ''2'', CHR ''}'']
   \<and> dumps_sorted (JObj [(''a'', JInt 1), (''b'', JInt 2)]) =
       dumps_sorted (JObj [(''b'', JInt 2), (''a'', JInt 1)])
   \<and> check_permission default_permissions ''write_file'' (JObj [(''a'', JInt 1), (''b'', JInt 2)]) =
       check_permission default_permissions ''write_file'' (JObj [(''b'', JInt 2), (''a'', JInt 1)])"
proof -
  have h: "same_value (JObj [(''a'', JInt 1), (''b'', JInt 2)]) (JObj [(''b'', JInt 2), (''a'', JInt 1)])"
    by (rule same_items_same_value) (simp_all add: fun_eq_iff)
  have d: "dumps_sorted (JObj [(''b'', JInt 2), (''a'', JInt 1)]) =
       [CHR ''{'', CHR 0x22, CHR ''a'', CHR 0x22, CHR '':'', CHR '' '', CHR ''1'', CHR '','', CHR '' '',
        CHR 0x22, CHR ''b'', CHR 0x22, CHR '':'', CHR '' '', CHR ''2'', CHR ''}'']"
    by code_simp
  from h d canonical_key_order_independent [OF h, of "''write_file''" default_permissions]
  show ?thesis by blast
qed

section \<open>The mediator: deny, ask and execute\<close>

lemma audit_log_log_audit [simp]:
  "audit_log (log_audit s op dec rsn) =
     audit_log s @ [\<lparr>operation = op, decision = dec, reason = rsn\<rparr>]"
  by (simp add: audit_log_def log_audit_def)

lemma tool_calls_log_audit [simp]: "tool_calls (log_audit s op dec rsn) = tool_calls s"
  by (simp add: tool_calls_def log_audit_def)

lemma permissions_log_audit [simp]: "permissions (log_audit s op dec rsn) = permissions s"
  by (simp add: log_audit_def)

lemma trace_log_audit [simp]:
  "trace (log_audit s op dec rsn) =
     trace s @ [Audit \<lparr>operation = op, decision = dec, reason = rsn\<rparr>]"
  by (simp add: log_audit_def)

lemma call_denied:
  assumes "check_permission (permissions s) tool_name (effective_arguments arguments) = ''deny''"
  shows "call_tool_with_permission exec s tool_name arguments approved =
     (Inr [TextContent (''Permission denied for tool: '' @ tool_name)],
      log_audit s (''TOOL: '' @ tool_name) ''DENIED'' ''Policy: deny'')"
  using assms by (simp add: call_tool_with_permission_def Let_def)

lemma call_ask:
  assumes "check_permission (permissions s) tool_name (effective_arguments arguments) = ''ask''"
  shows "call_tool_with_permission exec s tool_name arguments False =
     (Inr [TextContent (approval_msg tool_name (effective_arguments arguments))],
      log_audit s (''TOOL: '' @ tool_name) ''ASK'' ''Awaiting approval'')"
  using assms by (simp add: call_tool_with_permission_def Let_def)

lemma call_executes:
  assumes "check_permission (permissions s) tool_name (effective_arguments arguments) = verdict"
    and "verdict \<noteq> ''deny''" and "verdict \<noteq> ''ask'' \<or> approved"
  shows "call_tool_with_permission exec s tool_name arguments approved =
     (exec (trace s @ [Audit \<lparr>operation = ''TOOL: '' @ tool_name, decision = ''ALLOWED'',
                               reason = ''Policy: '' @ verdict\<rparr>])
        tool_name (effective_arguments arguments),
      s\<lparr>trace := trace s @ [Audit \<lparr>operation = ''TOOL: '' @ tool_name, decision = ''ALLOWED'',
                                  reason = ''Policy: '' @ verdict\<rparr>,
                           ToolCall tool_name (effective_arguments arguments)]\<rparr>)"
  using assms by (auto simp: call_tool_with_permission_def Let_def log_audit_def)

lemma approval_msg_detected:
  "sublist ''Permission required for tool:'' (approval_msg t a)
   \<and> sublist ''Please approve this operation'' (approval_msg t a)"
proof
  have "prefix ''Permission required for tool:'' (approval_msg t a)"
    by (simp add: approval_msg_def)
  then show "sublist ''Permission required for tool:'' (approval_msg t a)"
    by (rule prefix_imp_sublist)
next
  have "approval_msg t a =
      (''Permission required for tool: '' @ t @ [CHR 0x0A]
        @ ''Arguments: '' @ dumps_indent 0 a @ [CHR 0x0A, CHR 0x0A]
        @ ''This tool requires approval before execution.'' @ [CHR 0x0A])
      @ ''Please approve this operation'' @ '' in the GUI to proceed.''"
    by (simp add: approval_msg_def)
  then show "sublist ''Please approve this operation'' (approval_msg t a)"
    unfolding sublist_def by blast
qed

lemma default_delete_file:
  "check_permission default_permissions ''delete_file'' (effective_arguments (JObj [])) = ''deny''"
  by code_simp

text \<open>
  C6. When the verdict is \<open>deny\<close>, whether or not the call is flagged as approved, the
  tool executor is not called, exactly one audit record is appended, with decision
  \<open>DENIED\<close>, and the caller gets the rejection message naming the tool.
\<close>

theorem deny_never_executes:
  assumes "check_permission (permissions s) tool_name (effective_arguments arguments) = ''deny''"
  shows "fst (call_tool_with_permission exec s tool_name arguments approved) =
           Inr [TextContent (''Permission denied for tool: '' @ tool_name)]
       \<and> tool_calls (snd (call_tool_with_permission exec s tool_name arguments approved)) =
           tool_calls s
       \<and> audit_log (snd (call_tool_with_permission exec s tool_name arguments approved)) =
           audit_log s @ [\<lparr>operation = ''TOOL: '' @ tool_name, decision = ''DENIED'',
                           reason = ''Policy: deny''\<rparr>]"
  by (simp add: call_denied [OF assms])

theorem deny_never_executes_witness:
  "check_permission (permissions example_client) ''delete_file'' (effective_arguments (JObj []))
     = ''deny''
   \<and> fst (call_tool_with_permission example_executor example_client ''delete_file'' (JObj []) True)
     = Inr [TextContent ''Permission denied for tool: delete_file'']
   \<and> tool_calls (snd (call_tool_with_permission example_executor example_client
        ''delete_file'' (JObj []) True)) = []
   \<and> audit_log (snd (call_tool_with_permission example_executor example_client
        ''delete_file'' (JObj []) True))
     = [\<lparr>operation = ''TOOL: delete_file'', decision = ''DENIED'', reason = ''Policy: deny''\<rparr>]"
proof -
  have h: "check_permission (permissions example_client) ''delete_file''
             (effective_arguments (JObj [])) = ''deny''"
    by (simp add: example_client_def default_delete_file)
  show ?thesis
    using h deny_never_executes [OF h, of example_executor True]
    by (simp add: example_client_def audit_log_def tool_calls_def)
qed

text \<open>
  C5. When the verdict is \<open>ask\<close> and the call is not approved, the mediator returns the
  approval-required message and appends the one record \<open>ASK\<close>, \<open>Awaiting approval\<close>;
  through \<^verbatim>\<open>execute_tool\<close>, which puts every tool request of the host to the mediator
  (the four synthetic resource and prompt helpers are answered before and are no tool
  requests), no tool is executed and the pending approval is registered for that tool name
  and those arguments.
\<close>

theorem ask_pauses_the_call:
  assumes "check_permission (permissions h) tool_name (effective_arguments arguments) = ''ask''"
  shows "fst (call_tool_with_permission (call_tool env) h tool_name arguments False) =
           Inr [TextContent (approval_msg tool_name (effective_arguments arguments))]
       \<and> tool_calls (snd (call_tool_with_permission (call_tool env) h tool_name arguments False)) =
           tool_calls h
       \<and> audit_log (snd (call_tool_with_permission (call_tool env) h tool_name arguments False)) =
           audit_log h @ [\<lparr>operation = ''TOOL: '' @ tool_name, decision = ''ASK'',
                           reason = ''Awaiting approval''\<rparr>]
       \<and> (tool_name \<notin> set synthetic_tools \<longrightarrow>
            fst (execute_tool env h tool_name arguments) =
              Inr (approval_msg tool_name (effective_arguments arguments))
          \<and> tool_calls (snd (execute_tool env h tool_name arguments)) = tool_calls h
          \<and> audit_log (snd (execute_tool env h tool_name arguments)) =
              audit_log h @ [\<lparr>operation = ''TOOL: '' @ tool_name, decision = ''ASK'',
                              reason = ''Awaiting approval''\<rparr>]
          \<and> pending_approval (snd (execute_tool env h tool_name arguments)) =
              Some (tool_name, arguments))"
proof -
  have c: "call_tool_with_permission (call_tool env) h tool_name arguments False =
           (Inr [TextContent (approval_msg tool_name (effective_arguments arguments))],
            log_audit h (''TOOL: '' @ tool_name) ''ASK'' ''Awaiting approval'')"
    using assms by (rule call_ask)
  have e: "execute_tool env h tool_name arguments =
      (Inr (approval_msg tool_name (effective_arguments arguments)),
       (log_audit h (''TOOL: '' @ tool_name) ''ASK'' ''Awaiting approval'')
         \<lparr>pending_approval := Some (tool_name, arguments)\<rparr>)"
    if "tool_name \<notin> set synthetic_tools"
    using that by (simp add: execute_tool_def c approval_msg_detected)
  show ?thesis
    by (simp add: c e tool_calls_def audit_log_def log_audit_def)
qed

theorem ask_pauses_the_call_witness:
  "check_permission (permissions example_host) ''write_file''
      (effective_arguments example_arguments) = ''ask''
   \<and> ''write_file'' \<notin> set synthetic_tools
   \<and> tool_calls (snd (execute_tool example_env example_host ''write_file'' example_arguments)) = []
   \<and> audit_log (snd (execute_tool example_env example_host ''write_file'' example_arguments)) =
       [\<lparr>operation = ''TOOL: write_file'', decision = ''ASK'', reason = ''Awaiting approval''\<rparr>]
   \<and> pending_approval (snd (execute_tool example_env example_host ''write_file'' example_arguments))
       = Some (''write_file'', example_arguments)"
proof -
  have h1: "check_permission (permissions example_host) ''write_file''
      (effective_arguments example_arguments) = ''ask''"
    by code_simp
  have h2: "''write_file'' \<notin> set synthetic_tools"
    by code_simp
  have t: "tool_calls example_host = []" and a: "audit_log example_host = []"
    by code_simp+
  show ?thesis
    using h1 h2 ask_pauses_the_call [OF h1, of example_env]
    by (simp add: t a)
qed

text \<open>
  C9. On the execution path (the verdict is not \<open>deny\<close>, and not \<open>ask\<close> unless
  approved) the \<open>ALLOWED\<close> record is in the trace the executor is called with, and it is in
  the audit log whatever the executor does. When the executor raises, \<^verbatim>\<open>execute_tool\<close>
  returns the text \<open>Error executing tool: ...\<close>, which is not the rejection message of a
  denial.
\<close>

theorem allowed_recorded_before_execution:
  assumes "check_permission (permissions h) tool_name (effective_arguments arguments) = verdict"
    and "verdict \<noteq> ''deny''" and "verdict \<noteq> ''ask'' \<or> approved"
  shows "fst (call_tool_with_permission (call_tool env) h tool_name arguments approved) =
           call_tool env
             (trace h @ [Audit \<lparr>operation = ''TOOL: '' @ tool_name, decision = ''ALLOWED'',
                                 reason = ''Policy: '' @ verdict\<rparr>])
             tool_name (effective_arguments arguments)
       \<and> trace (snd (call_tool_with_permission (call_tool env) h tool_name arguments approved)) =
           trace h @ [Audit \<lparr>operation = ''TOOL: '' @ tool_name, decision = ''ALLOWED'',
                               reason = ''Policy: '' @ verdict\<rparr>,
                      ToolCall tool_name (effective_arguments arguments)]
       \<and> audit_log (snd (call_tool_with_permission (call_tool env) h tool_name arguments approved)) =
           audit_log h @ [\<lparr>operation = ''TOOL: '' @ tool_name, decision = ''ALLOWED'',
                           reason = ''Policy: '' @ verdict\<rparr>]
       \<and> (\<forall>e. call_tool env
                 (trace h @ [Audit \<lparr>operation = ''TOOL: '' @ tool_name, decision = ''ALLOWED'',
                                     reason = ''Policy: '' @ verdict\<rparr>])
                 tool_name (effective_arguments arguments) = Inl e
              \<and> tool_name \<notin> set synthetic_tools \<and> verdict \<noteq> ''ask''
            \<longrightarrow> fst (execute_tool env h tool_name arguments) =
                  Inr (''Error executing tool: '' @ str_exception e)
              \<and> fst (execute_tool env h tool_name arguments) \<noteq>
                  Inr (''Permission denied for tool: '' @ tool_name)
              \<and> audit_log (snd (execute_tool env h tool_name arguments)) =
                  audit_log h @ [\<lparr>operation = ''TOOL: '' @ tool_name, decision = ''ALLOWED'',
                                  reason = ''Policy: '' @ verdict\<rparr>])"
proof (intro conjI allI impI)
  note c = call_executes [OF assms, of "call_tool env"]
  show "fst (call_tool_with_permission (call_tool env) h tool_name arguments approved) =
           call_tool env
             (trace h @ [Audit \<lparr>operation = ''TOOL: '' @ tool_name, decision = ''ALLOWED'',
                                 reason = ''Policy: '' @ verdict\<rparr>])
             tool_name (effective_arguments arguments)"
    by (simp add: c)
  show "trace (snd (call_tool_with_permission (call_tool env) h tool_name arguments approved)) =
           trace h @ [Audit \<lparr>operation = ''TOOL: '' @ tool_name, decision = ''ALLOWED'',
                               reason = ''Policy: '' @ verdict\<rparr>,
                      ToolCall tool_name (effective_arguments arguments)]"
    by (simp add: c)
  show "audit_log (snd (call_tool_with_permission (call_tool env) h tool_name arguments approved)) =
           audit_log h @ [\<lparr>operation = ''TOOL: '' @ tool_name, decision = ''ALLOWED'',
                           reason = ''Policy: '' @ verdict\<rparr>]"
    by (simp add: c audit_log_def)
next
  fix e
  assume a: "call_tool env
                 (trace h @ [Audit \<lparr>operation = ''TOOL: '' @ tool_name, decision = ''ALLOWED'',
                                     reason = ''Policy: '' @ verdict\<rparr>])
                 tool_name (effective_arguments arguments) = Inl e
              \<and> tool_name \<notin> set synthetic_tools \<and> verdict \<noteq> ''ask''"
  then have "verdict \<noteq> ''ask'' \<or> False" by simp
  note c = call_executes [OF assms(1,2) this, of "call_tool env"]
  from a have x: "execute_tool env h tool_name arguments =
      (Inr (''Error executing tool: '' @ str_exception e),
       h\<lparr>trace := trace h @ [Audit \<lparr>operation = ''TOOL: '' @ tool_name, decision = ''ALLOWED'',
                                  reason = ''Policy: '' @ verdict\<rparr>,
                           ToolCall tool_name (effective_arguments arguments)]\<rparr>)"
    by (simp add: execute_tool_def c)
  show "fst (execute_tool env h tool_name arguments) =
                  Inr (''Error executing tool: '' @ str_exception e)"
    by (simp add: x)
  show "fst (execute_tool env h tool_name arguments) \<noteq>
                  Inr (''Permission denied for tool: '' @ tool_name)"
    by (simp add: x)
  show "audit_log (snd (execute_tool env h tool_name arguments)) =
                  audit_log h @ [\<lparr>operation = ''TOOL: '' @ tool_name, decision = ''ALLOWED'',
                                  reason = ''Policy: '' @ verdict\<rparr>]"
    by (simp add: x audit_log_def)
qed

theorem allowed_recorded_before_execution_witness:
  "check_permission (permissions example_host) ''read_file''
      (effective_arguments (JObj [(''filepath'', JStr ''notes.txt'')])) = ''allow''
   \<and> call_tool failing_env
        [Audit \<lparr>operation = ''TOOL: read_file'', decision = ''ALLOWED'', reason = ''Policy: allow''\<rparr>]
        ''read_file'' (JObj [(''filepath'', JStr ''notes.txt'')]) = Inl (PyException ''connection closed'')
   \<and> ''read_file'' \<notin> set synthetic_tools
   \<and> fst (execute_tool failing_env example_host ''read_file'' (JObj [(''filepath'', JStr ''notes.txt'')]))
       = Inr ''Error executing tool: connection closed''
   \<and> audit_log (snd (execute_tool failing_env example_host ''read_file''
        (JObj [(''filepath'', JStr ''notes.txt'')]))) =
       [\<lparr>operation = ''TOOL: read_file'', decision = ''ALLOWED'', reason = ''Policy: allow''\<rparr>]"
proof -
  have h1: "check_permission (permissions example_host) ''read_file''
      (effective_arguments (JObj [(''filepath'', JStr ''notes.txt'')])) = ''allow''"
    by code_simp
  have h2: "''allow'' \<noteq> ''deny''" and h3: "''allow'' \<noteq> ''ask'' \<or> False"
    by simp_all
  have e: "effective_arguments (JObj [(''filepath'', JStr ''notes.txt'')]) =
      JObj [(''filepath'', JStr ''notes.txt'')]"
    by code_simp
  have x: "call_tool failing_env
        [Audit \<lparr>operation = ''TOOL: read_file'', decision = ''ALLOWED'', reason = ''Policy: allow''\<rparr>]
        ''read_file'' (JObj [(''filepath'', JStr ''notes.txt'')]) = Inl (PyException ''connection closed'')"
    by (simp add: failing_env_def failing_executor_def)
  have n: "''read_file'' \<notin> set synthetic_tools"
    by code_simp
  have t: "trace example_host = []" and a: "audit_log example_host = []"
    by code_simp+
  from allowed_recorded_before_execution [OF h1 h2 h3, of failing_env]
  have "\<forall>e. call_tool failing_env
                 (trace example_host @ [Audit \<lparr>operation = ''TOOL: '' @ ''read_file'', decision = ''ALLOWED'',
                                     reason = ''Policy: '' @ ''allow''\<rparr>])
                 ''read_file'' (effective_arguments (JObj [(''filepath'', JStr ''notes.txt'')])) = Inl e
              \<and> ''read_file'' \<notin> set synthetic_tools \<and> ''allow'' \<noteq> ''ask''
            \<longrightarrow> fst (execute_tool failing_env example_host ''read_file'' (JObj [(''filepath'', JStr ''notes.txt'')])) =
                  Inr (''Error executing tool: '' @ str_exception e)
              \<and> audit_log (snd (execute_tool failing_env example_host ''read_file'' (JObj [(''filepath'', JStr ''notes.txt'')]))) =
                  audit_log example_host @ [\<lparr>operation = ''TOOL: '' @ ''read_file'', decision = ''ALLOWED'',
                                  reason = ''Policy: '' @ ''allow''\<rparr>]"
    by blast
  from this [rule_format, of "PyException ''connection closed''"] x n h1
  show ?thesis
    by (simp add: e t a)
qed

section \<open>The approval replies\<close>

lemma add_exchange_fields [simp]:
  "trace (add_exchange s u r) = trace s"
  "permissions (add_exchange s u r) = permissions s"
  "pending_approval (add_exchange s u r) = pending_approval s"
  "tool_calls (add_exchange s u r) = tool_calls s"
  "audit_log (add_exchange s u r) = audit_log s"
  by (simp_all add: add_exchange_def tool_calls_def audit_log_def)

lemma call_keeps_pending [simp]:
  "pending_approval (snd (call_tool_with_permission exec s t a approved)) = pending_approval s"
  by (simp add: call_tool_with_permission_def Let_def log_audit_def)

lemma call_keeps_permissions [simp]:
  "permissions (snd (call_tool_with_permission exec s t a approved)) = permissions s"
  by (simp add: call_tool_with_permission_def Let_def log_audit_def)

lemma call_approved_trace:
  "trace (snd (call_tool_with_permission exec s t a True)) =
     trace s @
       (if check_permission (permissions s) t (effective_arguments a) = ''deny''
        then [Audit \<lparr>operation = ''TOOL: '' @ t, decision = ''DENIED'', reason = ''Policy: deny''\<rparr>]
        else [Audit \<lparr>operation = ''TOOL: '' @ t, decision = ''ALLOWED'',
                     reason = ''Policy: '' @ check_permission (permissions s) t (effective_arguments a)\<rparr>,
              ToolCall t (effective_arguments a)])"
  by (simp add: call_tool_with_permission_def Let_def log_audit_def)

lemma tool_calls_append_trace:
  "trace s' = trace s @ evs \<Longrightarrow>
   tool_calls s' = tool_calls s
     @ concat (map (\<lambda>e. case e of Audit _ \<Rightarrow> [] | ToolCall t a \<Rightarrow> [(t, a)]) evs)"
  by (simp add: tool_calls_def)

lemma audit_log_append_trace:
  "trace s' = trace s @ evs \<Longrightarrow>
   audit_log s' = audit_log s
     @ concat (map (\<lambda>e. case e of Audit a \<Rightarrow> [a] | ToolCall _ _ \<Rightarrow> []) evs)"
  by (simp add: audit_log_def)

lemma chat_affirmative:
  assumes "pending_approval s = Some (t, a)" and "lower (strip m) \<in> set affirmative"
  obtains response where
    "chat env s m =
       (Inr (Some response),
        add_exchange (snd (call_tool_with_permission (call_tool env)
                             (s\<lparr>pending_approval := None\<rparr>) t a True)) m response)"
proof (cases "call_tool_with_permission (call_tool env) (s\<lparr>pending_approval := None\<rparr>) t a True")
  case (Pair r s2)
  with assms that show ?thesis
    by (cases r) (simp_all add: chat_def Let_def)
qed

lemma chat_affirmative_state:
  assumes "pending_approval s = Some (t, a)" and "lower (strip m) \<in> set affirmative"
  shows "pending_approval (snd (chat env s m)) = None"
    and "permissions (snd (chat env s m)) = permissions s"
    and "trace (snd (chat env s m)) =
     trace s @
       (if check_permission (permissions s) t (effective_arguments a) = ''deny''
        then [Audit \<lparr>operation = ''TOOL: '' @ t, decision = ''DENIED'', reason = ''Policy: deny''\<rparr>]
        else [Audit \<lparr>operation = ''TOOL: '' @ t, decision = ''ALLOWED'',
                     reason = ''Policy: '' @ check_permission (permissions s) t (effective_arguments a)\<rparr>,
              ToolCall t (effective_arguments a)])"
proof -
  from assms obtain response where c: "chat env s m =
       (Inr (Some response),
        add_exchange (snd (call_tool_with_permission (call_tool env)
                             (s\<lparr>pending_approval := None\<rparr>) t a True)) m response)"
    by (rule chat_affirmative)
  show "pending_approval (snd (chat env s m)) = None" by (simp add: c)
  show "permissions (snd (chat env s m)) = permissions s" by (simp add: c)
  show "trace (snd (chat env s m)) =
     trace s @
       (if check_permission (permissions s) t (effective_arguments a) = ''deny''
        then [Audit \<lparr>operation = ''TOOL: '' @ t, decision = ''DENIED'', reason = ''Policy: deny''\<rparr>]
        else [Audit \<lparr>operation = ''TOOL: '' @ t, decision = ''ALLOWED'',
                     reason = ''Policy: '' @ check_permission (permissions s) t (effective_arguments a)\<rparr>,
              ToolCall t (effective_arguments a)])"
    by (simp add: c call_approved_trace)
qed

lemma affirmative_not_negative: "x \<in> set affirmative \<Longrightarrow> x \<notin> set negative"
  by (auto simp: affirmative_def negative_def)

lemma chat_negative:
  assumes "pending_approval s = Some p" and "lower (strip m) \<in> set negative"
  shows "chat env s m =
     (Inr (Some ''Operation cancelled by user.''),
      add_exchange (s\<lparr>pending_approval := None\<rparr>) m ''Operation cancelled by user.'')"
proof -
  from assms(2) have "lower (strip m) \<notin> set affirmative"
    using affirmative_not_negative by blast
  with assms show ?thesis
    by (cases p) (simp add: chat_def Let_def)
qed

lemma chat_no_pending: "pending_approval s = None \<Longrightarrow> chat env s m = chat_llm env s m"
  by (simp add: chat_def)

text \<open>
  C1, as amended. A request flagged as approved is evaluated against the policy store as
  it is at that moment: it executes the call unless the verdict is \<open>deny\<close>, so the flag
  overrides \<open>ask\<close> only. The same holds for the affirmative reply to a pending approval.
\<close>

theorem approval_reevaluates_policy:
  "tool_calls (snd (call_tool_with_permission exec s tool_name arguments True)) =
     (if check_permission (permissions s) tool_name (effective_arguments arguments) = ''deny''
      then tool_calls s
      else tool_calls s @ [(tool_name, effective_arguments arguments)])
   \<and> (pending_approval h = Some (tool_name, arguments) \<and> lower (strip user_message) \<in> set affirmative
      \<longrightarrow> tool_calls (snd (chat env h user_message)) =
           (if check_permission (permissions h) tool_name (effective_arguments arguments) = ''deny''
            then tool_calls h
            else tool_calls h @ [(tool_name, effective_arguments arguments)]))"
proof (intro conjI impI)
  show "tool_calls (snd (call_tool_with_permission exec s tool_name arguments True)) =
     (if check_permission (permissions s) tool_name (effective_arguments arguments) = ''deny''
      then tool_calls s
      else tool_calls s @ [(tool_name, effective_arguments arguments)])"
    using tool_calls_append_trace [OF call_approved_trace, of exec s tool_name arguments]
    by simp
next
  assume "pending_approval h = Some (tool_name, arguments) \<and> lower (strip user_message) \<in> set affirmative"
  then have "trace (snd (chat env h user_message)) =
     trace h @
       (if check_permission (permissions h) tool_name (effective_arguments arguments) = ''deny''
        then [Audit \<lparr>operation = ''TOOL: '' @ tool_name, decision = ''DENIED'', reason = ''Policy: deny''\<rparr>]
        else [Audit \<lparr>operation = ''TOOL: '' @ tool_name, decision = ''ALLOWED'',
                     reason = ''Policy: '' @ check_permission (permissions h) tool_name (effective_arguments arguments)\<rparr>,
              ToolCall tool_name (effective_arguments arguments)])"
    by (simp add: chat_affirmative_state(3))
  from tool_calls_append_trace [OF this]
  show "tool_calls (snd (chat env h user_message)) =
           (if check_permission (permissions h) tool_name (effective_arguments arguments) = ''deny''
            then tool_calls h
            else tool_calls h @ [(tool_name, effective_arguments arguments)])"
    by simp
qed

theorem approval_reevaluates_policy_witness:
  "pending_approval paused_host = Some (''write_file'', example_arguments)
   \<and> lower (strip ''yes'') \<in> set affirmative
   \<and> tool_calls (snd (chat example_env paused_host ''yes'')) = [(''write_file'', example_arguments)]"
proof -
  have h: "pending_approval paused_host = Some (''write_file'', example_arguments)
      \<and> lower (strip ''yes'') \<in> set affirmative"
    by code_simp
  have v: "check_permission (permissions paused_host) ''write_file''
      (effective_arguments example_arguments) = ''ask''"
    by code_simp
  have e: "effective_arguments example_arguments = example_arguments"
    by code_simp
  have t: "tool_calls paused_host = []"
    by code_simp
  from approval_reevaluates_policy
    [of example_executor example_client "''write_file''" example_arguments paused_host
       "''yes''" example_env]
  have "tool_calls (snd (chat example_env paused_host ''yes'')) =
           (if check_permission (permissions paused_host) ''write_file'' (effective_arguments example_arguments) = ''deny''
            then tool_calls paused_host
            else tool_calls paused_host @ [(''write_file'', effective_arguments example_arguments)])"
    using h by blast
  with h show ?thesis by (simp add: v [unfolded e] e t)
qed

text \<open>
  C1 as stated fails: with \<^verbatim>\<open>write_file\<close> set to \<open>deny\<close> after the request was paused,
  the approval executes nothing and is logged as \<open>DENIED\<close>.
\<close>

theorem approved_call_blocked_by_deny_counterexample:
  "pending_approval denied_meanwhile = Some (''write_file'', example_arguments)
   \<and> tool_calls (snd (chat example_env denied_meanwhile ''yes'')) = []
   \<and> audit_log (snd (chat example_env denied_meanwhile ''yes'')) =
       [\<lparr>operation = ''TOOL: write_file'', decision = ''ASK'', reason = ''Awaiting approval''\<rparr>,
        \<lparr>operation = ''TOOL: write_file'', decision = ''DENIED'', reason = ''Policy: deny''\<rparr>]"
  by code_simp

text \<open>
  C2, as amended. With a pending approval whose verdict at that moment is not \<open>deny\<close>, an
  affirmative reply executes the pending call exactly once, clears the pending approval
  and appends exactly one audit record, with decision \<open>ALLOWED\<close> and the reason
  \<open>Policy: \<close> followed by that verdict.
\<close>

theorem affirmative_reply_executes_once:
  assumes "pending_approval s = Some (tool_name, arguments)"
    and "lower (strip user_message) \<in> set affirmative"
    and "check_permission (permissions s) tool_name (effective_arguments arguments) = verdict"
    and "verdict \<noteq> ''deny''"
  shows "tool_calls (snd (chat env s user_message)) =
           tool_calls s @ [(tool_name, effective_arguments arguments)]
       \<and> pending_approval (snd (chat env s user_message)) = None
       \<and> audit_log (snd (chat env s user_message)) =
           audit_log s @ [\<lparr>operation = ''TOOL: '' @ tool_name, decision = ''ALLOWED'',
                           reason = ''Policy: '' @ verdict\<rparr>]"
proof -
  have tr: "trace (snd (chat env s user_message)) =
      trace s @ [Audit \<lparr>operation = ''TOOL: '' @ tool_name, decision = ''ALLOWED'',
                        reason = ''Policy: '' @ verdict\<rparr>,
                 ToolCall tool_name (effective_arguments arguments)]"
    using assms by (simp add: chat_affirmative_state(3))
  show ?thesis
    using tool_calls_append_trace [OF tr] audit_log_append_trace [OF tr]
      chat_affirmative_state(1) [OF assms(1,2)]
    by simp
qed

theorem affirmative_reply_executes_once_witness:
  "pending_approval paused_host = Some (''write_file'', example_arguments)
   \<and> lower (strip '' YES '') \<in> set affirmative
   \<and> check_permission (permissions paused_host) ''write_file''
        (effective_arguments example_arguments) = ''ask''
   \<and> ''ask'' \<noteq> ''deny''
   \<and> tool_calls (snd (chat failing_env paused_host '' YES '')) =
        [(''write_file'', example_arguments)]
   \<and> pending_approval (snd (chat failing_env paused_host '' YES '')) = None
   \<and> audit_log (snd (chat failing_env paused_host '' YES '')) =
       [\<lparr>operation = ''TOOL: write_file'', decision = ''ASK'', reason = ''Awaiting approval''\<rparr>,
        \<lparr>operation = ''TOOL: write_file'', decision = ''ALLOWED'', reason = ''Policy: ask''\<rparr>]"
proof -
  have h1: "pending_approval paused_host = Some (''write_file'', example_arguments)"
    by code_simp
  have h2: "lower (strip '' YES '') \<in> set affirmative"
    by code_simp
  have h3: "check_permission (permissions paused_host) ''write_file''
        (effective_arguments example_arguments) = ''ask''"
    by code_simp
  have h4: "''ask'' \<noteq> ''deny''" by simp
  have e: "effective_arguments example_arguments = example_arguments"
    by code_simp
  have t: "tool_calls paused_host = []"
    by code_simp
  have a: "audit_log paused_host =
      [\<lparr>operation = ''TOOL: write_file'', decision = ''ASK'', reason = ''Awaiting approval''\<rparr>]"
    by code_simp
  show ?thesis
    using h1 h2 h3 affirmative_reply_executes_once [OF h1 h2 h3 h4, of failing_env]
    by (simp add: e t a h3 [unfolded e])
qed

text \<open>
  C2 as stated fails twice. In a state whose pending call is denied by the policy, the reply
  executes nothing and the record appended is \<open>DENIED\<close>. And the reason logged is the
  policy, not the approval: when the pending call is one the policy allows (it became
  pending because the tool's output quoted the approval phrases), the record of the approved
  execution is the very record of the unapproved one.
\<close>

theorem affirmative_reply_denied_counterexample:
  "pending_approval denied_meanwhile = Some (''write_file'', example_arguments)
   \<and> lower (strip ''  Approve '') \<in> set affirmative
   \<and> tool_calls (snd (chat example_env denied_meanwhile ''  Approve '')) = tool_calls denied_meanwhile
   \<and> map decision (audit_log (snd (chat example_env denied_meanwhile ''  Approve ''))) =
       map decision (audit_log denied_meanwhile) @ [''DENIED'']
   \<and> pending_approval quoted_host = Some (''read_file'', JObj [(''filepath'', JStr ''app.log'')])
   \<and> audit_log quoted_host =
       [\<lparr>operation = ''TOOL: read_file'', decision = ''ALLOWED'', reason = ''Policy: allow''\<rparr>]
   \<and> audit_log (snd (chat quoting_env quoted_host ''yes'')) =
       [\<lparr>operation = ''TOOL: read_file'', decision = ''ALLOWED'', reason = ''Policy: allow''\<rparr>,
        \<lparr>operation = ''TOOL: read_file'', decision = ''ALLOWED'', reason = ''Policy: allow''\<rparr>]"
  by code_simp

text \<open>
  C3, as amended. With a pending approval, a negative reply executes no tool, clears the
  pending approval and returns the cancellation notice; it appends nothing to the audit
  log, so no \<open>ALLOWED\<close> record either.
\<close>

theorem negative_reply_cancels:
  assumes "pending_approval s = Some pending"
    and "lower (strip user_message) \<in> set negative"
  shows "fst (chat env s user_message) = Inr (Some ''Operation cancelled by user.'')
       \<and> pending_approval (snd (chat env s user_message)) = None
       \<and> tool_calls (snd (chat env s user_message)) = tool_calls s
       \<and> audit_log (snd (chat env s user_message)) = audit_log s
       \<and> trace (snd (chat env s user_message)) = trace s"
  by (simp add: chat_negative [OF assms] tool_calls_def audit_log_def)

theorem negative_reply_cancels_witness:
  "pending_approval paused_host = Some (''write_file'', example_arguments)
   \<and> lower (strip '' Cancel'') \<in> set negative
   \<and> fst (chat example_env paused_host '' Cancel'') = Inr (Some ''Operation cancelled by user.'')
   \<and> pending_approval (snd (chat example_env paused_host '' Cancel'')) = None
   \<and> tool_calls (snd (chat example_env paused_host '' Cancel'')) = []
   \<and> audit_log (snd (chat example_env paused_host '' Cancel'')) =
       [\<lparr>operation = ''TOOL: write_file'', decision = ''ASK'', reason = ''Awaiting approval''\<rparr>]"
proof -
  have h1: "pending_approval paused_host = Some (''write_file'', example_arguments)"
    by code_simp
  have h2: "lower (strip '' Cancel'') \<in> set negative"
    by code_simp
  have t: "tool_calls paused_host = []"
    by code_simp
  have a: "audit_log paused_host =
      [\<lparr>operation = ''TOOL: write_file'', decision = ''ASK'', reason = ''Awaiting approval''\<rparr>]"
    by code_simp
  show ?thesis
    using h1 h2 negative_reply_cancels [OF h1 h2, of example_env]
    by (simp add: t a)
qed

text \<open>C3 as stated fails: after the negative reply the audit log is what it was.\<close>

theorem negative_reply_logs_nothing_counterexample:
  "pending_approval paused_host = Some (''write_file'', example_arguments)
   \<and> lower (strip ''no'') \<in> set negative
   \<and> audit_log (snd (chat example_env paused_host ''no'')) = audit_log paused_host"
  by code_simp

subsection \<open>Replies when nothing is pending\<close>

lemma unapproved_step_refl: "unapproved_step s s"
  by (simp add: unapproved_step_def new_events_def)

lemma unapproved_step_trans:
  assumes "unapproved_step s s'" and "unapproved_step s' s''"
  shows "unapproved_step s s''"
proof -
  from assms(1) obtain evs where 1: "trace s' = trace s @ evs" "permissions s' = permissions s"
    "list_all (permitted_event (permissions s)) evs"
    by (auto simp: unapproved_step_def new_events_def prefix_def)
  from assms(2) obtain evs' where 2: "trace s'' = trace s' @ evs'" "permissions s'' = permissions s'"
    "list_all (permitted_event (permissions s')) evs'"
    by (auto simp: unapproved_step_def new_events_def prefix_def)
  from 1 2 show ?thesis
    by (simp add: unapproved_step_def new_events_def)
qed

lemma unapproved_step_history:
  "unapproved_step s s' \<Longrightarrow> unapproved_step s (s'\<lparr>conversation_history := h\<rparr>)"
  by (simp add: unapproved_step_def new_events_def)

lemma unapproved_step_only_history: "unapproved_step s (s\<lparr>conversation_history := h\<rparr>)"
  by (simp add: unapproved_step_def new_events_def)

lemma call_unapproved:
  "unapproved_step s (snd (call_tool_with_permission exec s tool_name arguments False))"
  by (simp add: call_tool_with_permission_def Let_def unapproved_step_def new_events_def
      log_audit_def permitted_event_def)

lemma execute_tool_unapproved:
  "unapproved_step s (snd (execute_tool env s tool_name arguments))"
proof (cases "tool_name \<in> set synthetic_tools")
  case True
  then show ?thesis by (simp add: execute_tool_def unapproved_step_refl)
next
  case False
  obtain r s' where c: "call_tool_with_permission (call_tool env) s tool_name arguments False = (r, s')"
    by (cases "call_tool_with_permission (call_tool env) s tool_name arguments False")
  with call_unapproved [of s "call_tool env" tool_name arguments]
  have u: "unapproved_step s s'" by simp
  then have u': "unapproved_step s (s'\<lparr>pending_approval := p\<rparr>)" for p
    by (simp add: unapproved_step_def new_events_def)
  from False c u u' show ?thesis
    by (auto simp: execute_tool_def split: sum.splits list.splits content.splits)
qed

lemma run_tool_calls_unapproved:
  "unapproved_step s (snd (run_tool_calls env s tcs))"
proof (induction tcs arbitrary: s)
  case Nil
  then show ?case by (simp add: unapproved_step_refl)
next
  case (Cons tc tcs)
  show ?case
  proof (cases "tc_arguments tc")
    case None
    then show ?thesis by (simp add: unapproved_step_refl)
  next
    case (Some function_args)
    obtain r s1 where e: "execute_tool env s (tc_name tc) function_args = (r, s1)"
      by (cases "execute_tool env s (tc_name tc) function_args")
    with execute_tool_unapproved [of s env "tc_name tc" function_args]
    have u: "unapproved_step s s1" by simp
    show ?thesis
    proof (cases r)
      case (Inl exn)
      with Some e u show ?thesis by simp
    next
      case (Inr tool_result)
      let ?s2 = "s1\<lparr>conversation_history :=
                       conversation_history s1 @ [ToolMessage (tc_id tc) tool_result]\<rparr>"
      have "unapproved_step s ?s2" using u by (rule unapproved_step_history)
      moreover have "unapproved_step ?s2 (snd (run_tool_calls env ?s2 tcs))" by (rule Cons.IH)
      ultimately have "unapproved_step s (snd (run_tool_calls env ?s2 tcs))"
        by (rule unapproved_step_trans)
      with Some e Inr show ?thesis by simp
    qed
  qed
qed

lemma chat_llm_unapproved: "unapproved_step s (snd (chat_llm env s user_message))"
proof -
  let ?s1 = "s\<lparr>conversation_history := conversation_history s @ [UserMessage user_message]\<rparr>"
  have s1: "unapproved_step s ?s1" by (rule unapproved_step_history) (rule unapproved_step_refl)
  show ?thesis
  proof (cases "create_with_tools env (conversation_history ?s1)")
    case None
    with s1 show ?thesis by (simp add: chat_llm_def Let_def)
  next
    case (Some am)
    show ?thesis
    proof (cases "am_tool_calls am = []")
      case True
      with Some show ?thesis
        by (simp add: chat_llm_def Let_def unapproved_step_only_history)
    next
      case False
      let ?s2 = "?s1\<lparr>conversation_history := conversation_history ?s1
                    @ [AssistantToolCalls (case am_content am of None \<Rightarrow> [] | Some c \<Rightarrow> c)
                         (am_tool_calls am)]\<rparr>"
      obtain r s3 where run: "run_tool_calls env ?s2 (am_tool_calls am) = (r, s3)"
        by (cases "run_tool_calls env ?s2 (am_tool_calls am)")
      have "unapproved_step s ?s2"
        using s1 by (rule unapproved_step_history)
      moreover have "unapproved_step ?s2 s3"
        using run_tool_calls_unapproved [of ?s2 env "am_tool_calls am"] run by simp
      ultimately have s3: "unapproved_step s s3" by (rule unapproved_step_trans)
      then have s3': "unapproved_step s (s3\<lparr>conversation_history := h\<rparr>)" for h
        by (rule unapproved_step_history)
      from Some False run s3 s3' show ?thesis
        by (auto simp: chat_llm_def Let_def split: sum.splits option.splits)
    qed
  qed
qed

text \<open>
  C10. After an affirmative reply to a pending approval no approval is pending, whatever
  the executor did (the field is cleared before the call, so also when the call raises). A
  second affirmative reply is an ordinary message: it goes to the language model, every
  tool call it leads to is one the policy lets through without approval, and the call that
  was pending under \<open>ask\<close> is not executed again.
\<close>

theorem repeated_approval_is_ordinary_message:
  assumes "pending_approval s = Some (tool_name, arguments)"
    and "lower (strip reply) \<in> set affirmative"
    and "lower (strip reply') \<in> set affirmative"
  shows "pending_approval (snd (chat env s reply)) = None
       \<and> chat env' (snd (chat env s reply)) reply' = chat_llm env' (snd (chat env s reply)) reply'
       \<and> unapproved_step (snd (chat env s reply)) (snd (chat env' (snd (chat env s reply)) reply'))
       \<and> (check_permission (permissions s) tool_name (effective_arguments arguments) = ''ask''
          \<longrightarrow> ToolCall tool_name (effective_arguments arguments)
                \<notin> set (new_events (snd (chat env s reply))
                         (snd (chat env' (snd (chat env s reply)) reply'))))"
proof -
  let ?s1 = "snd (chat env s reply)"
  have p: "pending_approval ?s1 = None"
    using assms(1,2) by (rule chat_affirmative_state(1))
  have perms: "permissions ?s1 = permissions s"
    using assms(1,2) by (rule chat_affirmative_state(2))
  have c: "chat env' ?s1 reply' = chat_llm env' ?s1 reply'"
    using p by (rule chat_no_pending)
  have u: "unapproved_step ?s1 (snd (chat env' ?s1 reply'))"
    by (simp add: c chat_llm_unapproved)
  have "ToolCall tool_name (effective_arguments arguments)
          \<notin> set (new_events ?s1 (snd (chat env' ?s1 reply')))"
    if "check_permission (permissions s) tool_name (effective_arguments arguments) = ''ask''"
  proof
    assume "ToolCall tool_name (effective_arguments arguments)
          \<in> set (new_events ?s1 (snd (chat env' ?s1 reply')))"
    with u have "permitted_event (permissions ?s1) (ToolCall tool_name (effective_arguments arguments))"
      by (auto simp: unapproved_step_def list_all_iff)
    with that perms show False by (simp add: permitted_event_def)
  qed
  with p c u show ?thesis by blast
qed

theorem repeated_approval_is_ordinary_message_witness:
  "pending_approval paused_host = Some (''write_file'', example_arguments)
   \<and> lower (strip ''yes'') \<in> set affirmative
   \<and> lower (strip ''Yes'') \<in> set affirmative
   \<and> check_permission (permissions paused_host) ''write_file''
        (effective_arguments example_arguments) = ''ask''
   \<and> pending_approval (snd (chat failing_env paused_host ''yes'')) = None
   \<and> ToolCall ''write_file'' example_arguments
        \<notin> set (new_events (snd (chat failing_env paused_host ''yes''))
                 (snd (chat insistent_env (snd (chat failing_env paused_host ''yes'')) ''Yes'')))"
proof -
  have h1: "pending_approval paused_host = Some (''write_file'', example_arguments)"
    by code_simp
  have h2: "lower (strip ''yes'') \<in> set affirmative"
    by code_simp
  have h3: "lower (strip ''Yes'') \<in> set affirmative"
    by code_simp
  have v: "check_permission (permissions paused_host) ''write_file''
        (effective_arguments example_arguments) = ''ask''"
    by code_simp
  have e: "effective_arguments example_arguments = example_arguments"
    by code_simp
  note r = repeated_approval_is_ordinary_message [OF h1 h2 h3, of failing_env insistent_env]
  from r have a: "pending_approval (snd (chat failing_env paused_host ''yes'')) = None"
    by (rule conjunct1)
  from r v have "ToolCall ''write_file'' (effective_arguments example_arguments)
        \<notin> set (new_events (snd (chat failing_env paused_host ''yes''))
                 (snd (chat insistent_env (snd (chat failing_env paused_host ''yes'')) ''Yes'')))"
    by blast
  then have b: "ToolCall ''write_file'' example_arguments
        \<notin> set (new_events (snd (chat failing_env paused_host ''yes''))
                 (snd (chat insistent_env (snd (chat failing_env paused_host ''yes'')) ''Yes'')))"
    unfolding e .
  from h1 h2 h3 v a b show ?thesis by blast
qed

section \<open>Persistence of the policy store\<close>




























end
